theory Spec2Isabelle
  imports Main "HOL-Library.Sublist"
begin

section \<open>Shared helpers: JavaScript strings and arrays\<close>

text \<open>
  Strings are byte lists. \<open>lowerChar\<close> is the ASCII part of \<open>String.prototype.toLowerCase\<close>
  and of the case folding done by the \<open>i\<close> flag of a regular expression; bytes outside
  \<open>A\<close>..\<open>Z\<close> are left alone.
\<close>

definition lowerChar :: "char \<Rightarrow> char" where
  "lowerChar c =
     (case map_of (zip ''ABCDEFGHIJKLMNOPQRSTUVWXYZ'' ''abcdefghijklmnopqrstuvwxyz'') c of
        Some d \<Rightarrow> d
      | None \<Rightarrow> c)"

definition toLowerCase :: "string \<Rightarrow> string" where
  "toLowerCase s = map lowerChar s"

text \<open>\<open>Array.prototype.indexOf\<close>: the first position of the element, \<open>-1\<close> when it is absent.\<close>

fun indexOfFrom :: "int \<Rightarrow> 'a list \<Rightarrow> 'a \<Rightarrow> int" where
  "indexOfFrom i [] a = -1"
| "indexOfFrom i (b # bs) a = (if b = a then i else indexOfFrom (i + 1) bs a)"

definition indexOf :: "'a list \<Rightarrow> 'a \<Rightarrow> int" where
  "indexOf xs a = indexOfFrom 0 xs a"

text \<open>
  \<open>Math.round(v / 50)\<close> for an integer \<open>v\<close>: rounding to the nearest integer, halves
  towards plus infinity, which is \<open>floor (v / 50 + 1 / 2)\<close>.
\<close>

definition roundDiv50 :: "int \<Rightarrow> int" where
  "roundDiv50 v = (v + 25) div 50"

section \<open>Ghost mode: the decision engine (\<open>decide\<close>)\<close>

text \<open>
  One recognised word of the OCR result. The coordinates are the rounded centre of the
  bounding box, so they are integers; the confidence is the recognition score in percent,
  taken in whole percent here (the code only compares it with 50 and 90 and sorts by it).
  The bounding box itself is carried along by the code but never read by \<open>decide\<close>.
\<close>

record ocr_word =
  w_text :: string
  w_x :: int
  w_y :: int
  w_confidence :: int

text \<open>An entry of \<open>found\<close> in \<open>findButtons\<close>: the pattern, the matched word and its place.\<close>

record button =
  b_text :: string
  b_match :: string
  b_x :: int
  b_y :: int
  b_confidence :: int

text \<open>
  The configuration; \<open>pollInterval\<close> is the delay in milliseconds between the end of a
  cycle and the start of the next.
\<close>

record ghost_config =
  pollInterval :: int
  watchPatterns :: "string list"
  confirmScans :: nat
  maxActionsPerMinute :: nat

definition CONFIG :: ghost_config where
  "CONFIG = \<lparr> pollInterval = 5000,
              watchPatterns = [''Continue'', ''Keep'', ''Allow'', ''Proceed'', ''Yes'', ''Run'', ''OK''],
              confirmScans = 2,
              maxActionsPerMinute = 10 \<rparr>"

text \<open>
  The key of the pending button is the template string
  \<open>text@round(x/50)xround(y/50)\<close>; the triple below determines that string and is
  determined by it, so two keys are equal exactly when the triples are.
\<close>

type_synonym button_key = "string \<times> int \<times> int"

text \<open>
  The fields of \<open>state\<close> that \<open>decide\<close> and the rate counter use. The others
  (\<open>running\<close>, \<open>worker\<close>, \<open>lastAction\<close>, \<open>failedAttempts\<close>, \<open>startTime\<close>) are written
  but never read by them.
\<close>

record ghost_state =
  actionsThisMinute :: nat
  lastClickedButton :: "string option"
  lastClickedPos :: "(int \<times> int) option"
  sameButtonCount :: nat
  pendingButton :: "button_key option"
  pendingCount :: nat

definition initialState :: ghost_state where
  "initialState = \<lparr> actionsThisMinute = 0, lastClickedButton = None, lastClickedPos = None,
                      sameButtonCount = 0, pendingButton = None, pendingCount = 0 \<rparr>"

datatype decision = Wait string | Click int int string

fun isClick :: "decision \<Rightarrow> bool" where
  "isClick (Click cx cy r) = True"
| "isClick (Wait r) = False"

text \<open>
  The regular expression \<open>^"?PATTERN"?[,.]?$\<close> with flag \<open>i\<close>, for a pattern made of
  letters: an optional double quote, the pattern in any case, an optional double quote, an
  optional comma or full stop.
\<close>

definition regexTest :: "string \<Rightarrow> string \<Rightarrow> bool" where
  "regexTest pattern txt =
     (\<exists>q1 \<in> set [[], [CHR 0x22]]. \<exists>q2 \<in> set [[], [CHR 0x22]]. \<exists>e \<in> set [[], '','', ''.''].
        toLowerCase txt = q1 @ toLowerCase pattern @ q2 @ e)"

definition matchesOf :: "string \<Rightarrow> ocr_word list \<Rightarrow> button list" where
  "matchesOf pattern ws =
     map (\<lambda>w. \<lparr> b_text = pattern, b_match = w_text w, b_x = w_x w, b_y = w_y w,
                 b_confidence = w_confidence w \<rparr>)
       (filter (\<lambda>w. regexTest pattern (w_text w) \<and> w_confidence w > 50) ws)"

text \<open>\<open>found.sort((a, b) => b.confidence - a.confidence)\<close>: a stable sort, best score first.\<close>

definition findButtons :: "ghost_config \<Rightarrow> ocr_word list \<Rightarrow> button list" where
  "findButtons cfg ws =
     sort_key (\<lambda>b. - b_confidence b) (concat (map (\<lambda>p. matchesOf p ws) (watchPatterns cfg)))"

definition bottomRightButtons :: "button list \<Rightarrow> button list" where
  "bottomRightButtons bs = filter (\<lambda>b. b_x b > 1200 \<and> b_y b > 500) bs"

definition dialogButtons :: "button list \<Rightarrow> button list" where
  "dialogButtons bs =
     filter (\<lambda>b. b_text b \<in> set [''Allow'', ''Yes'', ''OK'', ''Keep'']
                \<and> b_confidence b > 90
                \<and> b_y b > 350 \<and> b_y b < 650
                \<and> b_x b > 400 \<and> b_x b < 900) bs"

definition priorityOrder :: "string list" where
  "priorityOrder = [''Allow'', ''Yes'', ''OK'', ''Keep'', ''Proceed'', ''Run'', ''Continue'']"

definition sortByPriority :: "button list \<Rightarrow> button list" where
  "sortByPriority bs = sort_key (\<lambda>b. indexOf priorityOrder (b_text b)) bs"

text \<open>
  The two spatial filters. \<open>None\<close> is the early return
  \<open>No buttons in chat panel or dialogs\<close>.
\<close>

definition regionButtons :: "button list \<Rightarrow> button list option" where
  "regionButtons bs =
     (if bottomRightButtons bs \<noteq> [] then Some (bottomRightButtons bs)
      else if dialogButtons bs \<noteq> [] then Some (dialogButtons bs)
      else None)"

text \<open>The stuck detection loop: the first button of another type than the last clicked one.\<close>

fun firstOther :: "string option \<Rightarrow> button list \<Rightarrow> nat option" where
  "firstOther l [] = None"
| "firstOther l (b # bs) =
     (if Some (b_text b) \<noteq> l then Some 0 else map_option Suc (firstOther l bs))"

definition candidateIndex :: "ghost_state \<Rightarrow> button list \<Rightarrow> nat" where
  "candidateIndex s bs =
     (if sameButtonCount s \<ge> 2 \<and> length bs > 1
      then (case firstOther (lastClickedButton s) bs of Some i \<Rightarrow> i | None \<Rightarrow> 0)
      else 0)"

definition buttonKey :: "button \<Rightarrow> button_key" where
  "buttonKey b = (b_text b, roundDiv50 (b_x b), roundDiv50 (b_y b))"

definition quoted :: "string \<Rightarrow> string" where
  "quoted s = [CHR 0x22] @ s @ [CHR 0x22]"

text \<open>The confirmation step: count the sighting of \<open>key\<close> in the pending record.\<close>

definition sight :: "button_key \<Rightarrow> ghost_state \<Rightarrow> ghost_state" where
  "sight key s =
     (if pendingButton s = Some key then s\<lparr> pendingCount := pendingCount s + 1 \<rparr>
      else s\<lparr> pendingButton := Some key, pendingCount := 1 \<rparr>)"

text \<open>The bookkeeping of a confirmed click.\<close>

definition commitClick :: "button \<Rightarrow> ghost_state \<Rightarrow> ghost_state" where
  "commitClick best s =
     (let s1 = s\<lparr> pendingButton := None, pendingCount := 0 \<rparr>;
          s2 = (if Some (b_text best) = lastClickedButton s1
                then s1\<lparr> sameButtonCount := sameButtonCount s1 + 1 \<rparr>
                else s1\<lparr> sameButtonCount := 1, lastClickedButton := Some (b_text best) \<rparr>)
      in s2\<lparr> lastClickedPos := Some (b_x best, b_y best) \<rparr>)"

text \<open>The candidate the decision is about, once the spatial filters have let some through.\<close>

definition bestOf :: "ghost_state \<Rightarrow> button list \<Rightarrow> button" where
  "bestOf s region = (let sorted = sortByPriority region in sorted ! candidateIndex s sorted)"

definition decide :: "ghost_config \<Rightarrow> ghost_state \<Rightarrow> ocr_word list \<Rightarrow> decision \<times> ghost_state" where
  "decide cfg s ws =
     (let buttons = findButtons cfg ws in
      if actionsThisMinute s \<ge> maxActionsPerMinute cfg then (Wait ''Rate limited'', s)
      else if buttons = [] then (Wait ''No buttons found'', s)
      else (case regionButtons buttons of
              None \<Rightarrow> (Wait ''No buttons in chat panel or dialogs'', s)
            | Some region \<Rightarrow>
                (let best = bestOf s region;
                     s1 = sight (buttonKey best) s
                 in if pendingCount s1 < confirmScans cfg
                    then (Wait ''Confirming button is real'', s1)
                    else (Click (b_x best) (b_y best) (''Confirmed: '' @ quoted (b_match best)),
                          commitClick best s1))))"

text \<open>
  The candidate \<open>decide\<close> would judge in state \<open>s\<close>, if any: what is left after
  \<open>findButtons\<close>, the spatial filters, the priority sort and the stuck detection.
\<close>

definition chosen :: "ghost_config \<Rightarrow> ghost_state \<Rightarrow> ocr_word list \<Rightarrow> button option" where
  "chosen cfg s ws = map_option (bestOf s) (regionButtons (findButtons cfg ws))"

text \<open>Successive calls of \<open>decide\<close>, one per poll cycle, on the state the last one left.\<close>

fun decideAll :: "ghost_config \<Rightarrow> ghost_state \<Rightarrow> ocr_word list list \<Rightarrow> decision list \<times> ghost_state" where
  "decideAll cfg s [] = ([], s)"
| "decideAll cfg s (ws # rest) =
     (let (d, s1) = decide cfg s ws; (ds, s2) = decideAll cfg s1 rest in (d # ds, s2))"

subsection \<open>Ghost mode: the click and the rate counter\<close>





subsection \<open>Ghost mode: the poll cycles in time\<close>










section \<open>The agent: recognised words and \<open>find\<close>\<close>

text \<open>
  An entry of \<open>lastWords\<close>, as \<open>D0TAgent.see\<close> leaves them; the coordinates it estimates
  are integers.
\<close>

record screen_word =
  sw_text :: string
  sw_x :: int
  sw_y :: int

text \<open>The options of \<open>find\<close>; \<open>near\<close> is \<open>null\<close> by default.\<close>

record find_options =
  exact :: bool
  near :: "string option"

definition noOptions :: find_options where
  "noOptions = \<lparr> exact = False, near = None \<rparr>"

text \<open>\<open>String.prototype.includes\<close>: the argument occurs as a contiguous part.\<close>

definition includes_str :: "string \<Rightarrow> string \<Rightarrow> bool" where
  "includes_str s search = sublist search s"

definition textMatches :: "bool \<Rightarrow> string \<Rightarrow> screen_word \<Rightarrow> bool" where
  "textMatches ex search w =
     (let wordText = toLowerCase (sw_text w)
      in if ex then wordText = search else includes_str wordText search)"

text \<open>
  The square of \<open>Math.hypot\<close>; sorting by it orders the matches as sorting by the distance
  does.
\<close>

definition dist2 :: "screen_word \<Rightarrow> screen_word \<Rightarrow> int" where
  "dist2 a e = (sw_x a - sw_x e) * (sw_x a - sw_x e) + (sw_y a - sw_y e) * (sw_y a - sw_y e)"

text \<open>
  \<open>find(text, options)\<close>. An empty \<open>near\<close> is falsy, like \<open>null\<close>; the element to be near
  is the first plain match of \<open>near\<close>.
\<close>

definition agentFind :: "screen_word list \<Rightarrow> string \<Rightarrow> find_options \<Rightarrow> screen_word list" where
  "agentFind lastWords txt opts =
     (let search = toLowerCase txt;
          matches = filter (textMatches (exact opts) search) lastWords
      in case near opts of
           None \<Rightarrow> matches
         | Some n \<Rightarrow>
             (if n = [] \<or> matches = [] then matches
              else (case filter (textMatches False (toLowerCase n)) lastWords of
                      [] \<Rightarrow> matches
                    | nearEl # others \<Rightarrow> sort_key (\<lambda>w. dist2 w nearEl) matches)))"

section \<open>Smart autonomous controller (\<open>smart-auto.js\<close>)\<close>

record smart_config =
  buttons :: "string list"
  buttonCooldown :: int
  loopThreshold :: nat

definition SMART_CONFIG :: smart_config where
  "SMART_CONFIG = \<lparr> buttons = [''Allow'', ''Continue'', ''Keep'', ''Yes'', ''OK'', ''Run'', ''Proceed'', ''Accept''],
                    buttonCooldown = 10000,
                    loopThreshold = 3 \<rparr>"

record click_record =
  c_x :: int
  c_y :: int
  c_time :: int
  c_button :: string

record learned_pos =
  l_x :: int
  l_y :: int
  l_lastSeen :: int

text \<open>
  The state of the controller; times are \<open>Date.now()\<close> in milliseconds. The copy of
  \<open>learned\<close> that \<open>saveState\<close> writes to the state file is not part of the model.
\<close>

record smart_state =
  running :: bool
  lastClickTime :: "string \<rightharpoonup> int"
  recentClicks :: "click_record list"
  learned :: "string \<rightharpoonup> learned_pos"
  totalClicks :: nat
  loopsAvoided :: nat

definition smartInitial :: smart_state where
  "smartInitial = \<lparr> running = True, lastClickTime = Map.empty, recentClicks = [],
                      learned = Map.empty, totalClicks = 0, loopsAvoided = 0 \<rparr>"

text \<open>\<open>if (!lastClick) return false\<close>: no entry, or the falsy time stamp 0.\<close>

definition isOnCooldown :: "smart_config \<Rightarrow> int \<Rightarrow> smart_state \<Rightarrow> string \<Rightarrow> bool" where
  "isOnCooldown cfg now st button =
     (case lastClickTime st button of
        None \<Rightarrow> False
      | Some lastClick \<Rightarrow> if lastClick = 0 then False else now - lastClick < buttonCooldown cfg)"

definition isLoopPosition :: "smart_config \<Rightarrow> int \<Rightarrow> smart_state \<Rightarrow> int \<Rightarrow> int \<Rightarrow> bool" where
  "isLoopPosition cfg now st px py =
     (let recent = filter (\<lambda>c. \<bar>c_x c - px\<bar> < 50 \<and> \<bar>c_y c - py\<bar> < 50 \<and> now - c_time c < 30000)
                     (recentClicks st)
      in loopThreshold cfg \<le> length recent)"

text \<open>\<open>recordClick\<close> at time \<open>now\<close>; \<open>slice(-10)\<close> keeps the last ten entries.\<close>

definition recordClick :: "int \<Rightarrow> string \<Rightarrow> int \<Rightarrow> int \<Rightarrow> smart_state \<Rightarrow> smart_state" where
  "recordClick now button px py st =
     (let pushed = recentClicks st @ [\<lparr> c_x = px, c_y = py, c_time = now, c_button = button \<rparr>];
          kept = (if length pushed > 20 then drop (length pushed - 10) pushed else pushed)
      in st\<lparr> lastClickTime := (lastClickTime st)(button \<mapsto> now),
              recentClicks := kept,
              learned := (learned st)(button \<mapsto> \<lparr> l_x = px, l_y = py, l_lastSeen = now \<rparr>),
              totalClicks := totalClicks st + 1 \<rparr>)"

text \<open>
  What a scan did: nothing, a click on a button that went through, or a click that threw
  (the error is caught and logged by \<open>smartScan\<close>, and nothing is recorded).
\<close>

datatype scan_outcome = Nothing | Clicked string int int | Failed string int int

fun clickPos :: "scan_outcome \<Rightarrow> (int \<times> int) option" where
  "clickPos Nothing = None"
| "clickPos (Clicked b px py) = Some (px, py)"
| "clickPos (Failed b px py) = Some (px, py)"

fun clickButton :: "scan_outcome \<Rightarrow> string option" where
  "clickButton Nothing = None"
| "clickButton (Clicked b px py) = Some b"
| "clickButton (Failed b px py) = Some b"

text \<open>
  The loop over the buttons in \<open>smartScan\<close>, at time \<open>now\<close> on the words \<open>ws\<close> of the
  scan. \<open>ok\<close> says whether the click goes through, \<open>tc\<close> is the time at which it is
  recorded.
\<close>

fun scanButtons :: "smart_config \<Rightarrow> int \<Rightarrow> bool \<Rightarrow> int \<Rightarrow> screen_word list \<Rightarrow> string list
                    \<Rightarrow> smart_state \<Rightarrow> scan_outcome \<times> smart_state" where
  "scanButtons cfg now ok tc ws [] st = (Nothing, st)"
| "scanButtons cfg now ok tc ws (button # rest) st =
     (if isOnCooldown cfg now st button then scanButtons cfg now ok tc ws rest st
      else (case agentFind ws button noOptions of
              [] \<Rightarrow> scanButtons cfg now ok tc ws rest st
            | target # others \<Rightarrow>
                if isLoopPosition cfg now st (sw_x target) (sw_y target)
                then scanButtons cfg now ok tc ws rest (st\<lparr> loopsAvoided := loopsAvoided st + 1 \<rparr>)
                else if ok
                     then (Clicked button (sw_x target) (sw_y target),
                           recordClick tc button (sw_x target) (sw_y target) st)
                     else (Failed button (sw_x target) (sw_y target), st)))"

text \<open>
  \<open>smartScan\<close>: nothing when the controller is stopped or when \<open>agent.see()\<close> throws
  (\<open>seen = None\<close>).
\<close>

definition smartScan :: "smart_config \<Rightarrow> int \<Rightarrow> bool \<Rightarrow> int \<Rightarrow> screen_word list option
                         \<Rightarrow> smart_state \<Rightarrow> scan_outcome \<times> smart_state" where
  "smartScan cfg now ok tc seen st =
     (if \<not> running st then (Nothing, st)
      else (case seen of
              None \<Rightarrow> (Nothing, st)
            | Some ws \<Rightarrow> scanButtons cfg now ok tc ws (buttons cfg) st))"

section \<open>The gateway (\<open>gateway.js\<close>) and the agent's \<open>execute\<close>\<close>

subsection \<open>Session and its file\<close>

text \<open>An entry of \<open>learnedPositions\<close>; \<open>seenAt\<close> is the time of the ISO string stored.\<close>

record position =
  p_x :: int
  p_y :: int
  p_seenAt :: int

text \<open>
  The object \<open>loadSession\<close> returns. The id is \<open>d0t-\<close> followed by a time stamp, kept
  here as that time stamp; the preferences are taken as flags, as the two default ones
  are. There is no \<open>stats\<close> member: the counters live beside the session, in
  \<open>state.stats\<close>.
\<close>

record session =
  session_id :: int
  startedAt :: int
  learnedPositions :: "string \<rightharpoonup> position"
  preferences :: "string \<rightharpoonup> bool"

record gw_stats =
  totalActions :: nat
  totalClicks_gw :: nat
  totalTypes :: nat
  uptime :: int

text \<open>
  The steps of a task, by the cases of the \<open>switch\<close> in \<open>execute\<close>; a type that is not
  among them is passed over.
\<close>

datatype action =
    ASee
  | AClick int int
  | AClickOn string
  | AType string
  | APress string
  | AHotkey string
  | AUrlBar string
  | ASearch string
  | ASearchAndOpen string
  | AWait int
  | ALog string
  | AOther string

datatype task_status = Queued | Running | Completed | Failed_status

record task =
  t_id :: int
  t_name :: string
  t_actions :: "action list"
  t_priority :: int
  t_status :: task_status
  t_createdAt :: int
  t_startedAt :: "int option"
  t_completedAt :: "int option"
  t_error :: "string option"

text \<open>The task broadcasts; the log broadcasts and the bounded history are left out.\<close>

datatype broadcast = TaskStarted task | TaskCompleted task | AutonomousEvent bool

text \<open>
  The state of the gateway. \<open>sessionFile\<close> is what \<open>session.json\<close> holds (\<open>None\<close>: no
  file, or one that does not parse); writing the session as JSON and parsing it again is
  taken to give the same record back. \<open>invoked\<close> lists the steps that \<open>execute\<close> has
  started, oldest first.
\<close>

record gateway =
  session :: session
  sessionFile :: "session option"
  taskQueue :: "task list"
  currentTask :: "task option"
  stats :: gw_stats
  outbox :: "broadcast list"
  invoked :: "action list"

definition defaultSession :: "int \<Rightarrow> session" where
  "defaultSession now =
     \<lparr> session_id = now, startedAt = now, learnedPositions = Map.empty,
       preferences = [''confirmClicks'' \<mapsto> False, ''verbose'' \<mapsto> True] \<rparr>"

definition loadSession :: "session option \<Rightarrow> int \<Rightarrow> session" where
  "loadSession file now = (case file of Some s \<Rightarrow> s | None \<Rightarrow> defaultSession now)"

text \<open>\<open>saveSession\<close>: a write that throws is caught and leaves the file as it was.\<close>

definition saveSession :: "bool \<Rightarrow> gateway \<Rightarrow> gateway" where
  "saveSession writable g = (if writable then g\<lparr> sessionFile := Some (session g) \<rparr> else g)"

text \<open>The state built when the process starts at time \<open>now\<close> over the file \<open>file\<close>.\<close>

definition gatewayStart :: "session option \<Rightarrow> int \<Rightarrow> gateway" where
  "gatewayStart file now =
     \<lparr> session = loadSession file now, sessionFile = file, taskQueue = [], currentTask = None,
       stats = \<lparr> totalActions = 0, totalClicks_gw = 0, totalTypes = 0, uptime = now \<rparr>,
       outbox = [], invoked = [] \<rparr>"

text \<open>The \<open>SIGINT\<close> handler saves the session and exits: what is left is the file.\<close>

definition shutdown :: "bool \<Rightarrow> gateway \<Rightarrow> session option" where
  "shutdown writable g = sessionFile (saveSession writable g)"

subsection \<open>Immediate actions\<close>

text \<open>
  What the surroundings contribute to the handling of one message: the clock, the words
  \<open>agent.see()\<close> yields (\<open>None\<close>: it throws), whether the injected input goes through,
  whether the session file can be written, the message of the error thrown otherwise, and
  for a task whether the agent can be obtained and how its steps end.
\<close>

datatype outcome = Done | Throws string

record env =
  e_now :: int
  e_seen :: "screen_word list option"
  e_actOk :: bool
  e_writable :: bool
  e_error :: string
  e_agentOk :: bool
  e_run :: "nat \<Rightarrow> outcome"

datatype reply =
    NoReply
  | ErrorReply string
  | SeeResult nat
  | ClickResult int int
  | ClickOnResult string bool int int
  | ClickOnNotFound string
  | TypeResult string
  | HotkeyResult string
  | UrlBarResult string
  | TaskQueuedReply task

definition countAction :: "gateway \<Rightarrow> gateway" where
  "countAction g = g\<lparr> stats := (stats g)\<lparr> totalActions := totalActions (stats g) + 1 \<rparr> \<rparr>"

definition countClick :: "gateway \<Rightarrow> gateway" where
  "countClick g = g\<lparr> stats := (stats g)\<lparr> totalActions := totalActions (stats g) + 1,
                                         totalClicks_gw := totalClicks_gw (stats g) + 1 \<rparr> \<rparr>"

definition countType :: "gateway \<Rightarrow> gateway" where
  "countType g = g\<lparr> stats := (stats g)\<lparr> totalActions := totalActions (stats g) + 1,
                                        totalTypes := totalTypes (stats g) + 1 \<rparr> \<rparr>"

definition learn :: "string \<Rightarrow> position \<Rightarrow> gateway \<Rightarrow> gateway" where
  "learn txt pos g =
     g\<lparr> session := (session g)\<lparr> learnedPositions := (learnedPositions (session g))(txt \<mapsto> pos) \<rparr> \<rparr>"

definition seePatterns :: "string list" where
  "seePatterns = [''Continue'', ''Keep'', ''Allow'', ''Yes'', ''OK'', ''Run'', ''Proceed'']"

text \<open>The loop of \<open>handleSee\<close> that remembers the first match of each pattern found.\<close>

fun rememberButtons :: "int \<Rightarrow> screen_word list \<Rightarrow> string list \<Rightarrow> gateway \<Rightarrow> gateway" where
  "rememberButtons now ws [] g = g"
| "rememberButtons now ws (pattern # rest) g =
     rememberButtons now ws rest
       (case agentFind ws pattern noOptions of
          [] \<Rightarrow> g
        | m # others \<Rightarrow> learn pattern \<lparr> p_x = sw_x m, p_y = sw_y m, p_seenAt = now \<rparr> g)"

definition handleSee :: "env \<Rightarrow> gateway \<Rightarrow> reply \<times> gateway" where
  "handleSee ev g =
     (case e_seen ev of
        None \<Rightarrow> (ErrorReply (e_error ev), g)
      | Some ws \<Rightarrow>
          (SeeResult (length ws),
           saveSession (e_writable ev) (rememberButtons (e_now ev) ws seePatterns g)))"

definition handleClick :: "env \<Rightarrow> int \<Rightarrow> int \<Rightarrow> gateway \<Rightarrow> reply \<times> gateway" where
  "handleClick ev cx cy g =
     (if \<not> e_actOk ev then (ErrorReply (e_error ev), g)
      else (ClickResult cx cy, countClick g))"

text \<open>
  \<open>handleClickOn\<close>. The reply \<open>ClickOnResult text usedLearned x y\<close> stands for
  \<open>success: true\<close>, and \<open>(x, y)\<close> is where \<open>agent.click\<close> was sent. A click that
  throws ends the handler before anything is written.
\<close>

definition handleClickOn :: "env \<Rightarrow> string \<Rightarrow> find_options \<Rightarrow> gateway \<Rightarrow> reply \<times> gateway" where
  "handleClickOn ev txt opts g =
     (case e_seen ev of
        None \<Rightarrow> (ErrorReply (e_error ev), g)
      | Some ws \<Rightarrow>
          (case agentFind ws txt opts of
             [] \<Rightarrow>
               (case learnedPositions (session g) txt of
                  Some lp \<Rightarrow>
                    if \<not> e_actOk ev then (ErrorReply (e_error ev), g)
                    else (ClickOnResult txt True (p_x lp) (p_y lp), countClick g)
                | None \<Rightarrow> (ClickOnNotFound txt, g))
           | target # others \<Rightarrow>
               if \<not> e_actOk ev then (ErrorReply (e_error ev), g)
               else (ClickOnResult txt False (sw_x target) (sw_y target),
                     countClick
                       (saveSession (e_writable ev)
                          (learn txt \<lparr> p_x = sw_x target, p_y = sw_y target, p_seenAt = e_now ev \<rparr> g)))))"

definition handleType :: "env \<Rightarrow> string \<Rightarrow> gateway \<Rightarrow> reply \<times> gateway" where
  "handleType ev txt g =
     (if \<not> e_actOk ev then (ErrorReply (e_error ev), g) else (TypeResult txt, countType g))"

definition handleHotkey :: "env \<Rightarrow> string \<Rightarrow> gateway \<Rightarrow> reply \<times> gateway" where
  "handleHotkey ev keys g =
     (if \<not> e_actOk ev then (ErrorReply (e_error ev), g) else (HotkeyResult keys, countAction g))"

definition handleUrlBar :: "env \<Rightarrow> string \<Rightarrow> gateway \<Rightarrow> reply \<times> gateway" where
  "handleUrlBar ev url g =
     (if \<not> e_actOk ev then (ErrorReply (e_error ev), g) else (UrlBarResult url, countAction g))"

definition setPreference :: "env \<Rightarrow> string \<Rightarrow> bool \<Rightarrow> gateway \<Rightarrow> gateway" where
  "setPreference ev k v g =
     saveSession (e_writable ev)
       (g\<lparr> session := (session g)\<lparr> preferences := (preferences (session g))(k \<mapsto> v) \<rparr> \<rparr>)"

subsection \<open>The task queue\<close>

text \<open>
  \<open>execute\<close>: the steps are run in order; the first one that throws ends the loop. The
  result is the list of the steps started and the message of the error, if any. Waiting,
  logging and a step of unknown type have nothing that fails.
\<close>

fun perform :: "(nat \<Rightarrow> outcome) \<Rightarrow> nat \<Rightarrow> action \<Rightarrow> outcome" where
  "perform run i (AWait ms) = Done"
| "perform run i (ALog m) = Done"
| "perform run i (AOther ty) = Done"
| "perform run i a = run i"

fun execute :: "(nat \<Rightarrow> outcome) \<Rightarrow> nat \<Rightarrow> action list \<Rightarrow> action list \<times> string option" where
  "execute run i [] = ([], None)"
| "execute run i (a # rest) =
     (case perform run i a of
        Throws msg \<Rightarrow> ([a], Some msg)
      | Done \<Rightarrow> (let (started, err) = execute run (Suc i) rest in (a # started, err)))"

text \<open>
  \<open>processTaskQueue\<close> up to its first \<open>await\<close>: this part runs at once when the function
  is called.
\<close>

definition processTaskQueue :: "int \<Rightarrow> gateway \<Rightarrow> gateway" where
  "processTaskQueue now g =
     (case taskQueue g of
        [] \<Rightarrow> g\<lparr> currentTask := None \<rparr>
      | t # rest \<Rightarrow>
          (let started = t\<lparr> t_status := Running, t_startedAt := Some now \<rparr>
           in g\<lparr> taskQueue := rest, currentTask := Some started,
                  outbox := outbox g @ [TaskStarted started] \<rparr>))"

text \<open>
  The rest of \<open>processTaskQueue\<close>, when the agent and the steps of the running task have
  settled: status and error are set, the end is broadcast, and the timer that calls
  \<open>processTaskQueue\<close> again is armed. Nothing thrown by a step leaves the \<open>try\<close>.
\<close>

definition taskSettled :: "env \<Rightarrow> gateway \<Rightarrow> gateway" where
  "taskSettled ev g =
     (case currentTask g of
        None \<Rightarrow> g
      | Some t \<Rightarrow>
          if t_status t \<noteq> Running then g
          else (let (started, err) = (if e_agentOk ev then execute (e_run ev) 0 (t_actions t)
                                      else ([], Some (e_error ev)));
                    ended = (case err of
                               None \<Rightarrow> t\<lparr> t_status := Completed, t_completedAt := Some (e_now ev) \<rparr>
                             | Some msg \<Rightarrow> t\<lparr> t_status := Failed_status, t_error := Some msg \<rparr>)
                in g\<lparr> currentTask := Some ended, invoked := invoked g @ started,
                       outbox := outbox g @ [TaskCompleted ended] \<rparr>))"

text \<open>The timer armed by \<open>taskSettled\<close> fires: the next task, if any, is started.\<close>

definition timerFired :: "env \<Rightarrow> gateway \<Rightarrow> gateway" where
  "timerFired ev g =
     (case currentTask g of
        None \<Rightarrow> g
      | Some t \<Rightarrow> if t_status t = Running then g else processTaskQueue (e_now ev) g)"

definition newTask :: "int \<Rightarrow> string \<Rightarrow> action list \<Rightarrow> int option \<Rightarrow> task" where
  "newTask now name actions priority =
     \<lparr> t_id = now, t_name = name, t_actions = actions,
       t_priority = (case priority of None \<Rightarrow> 0 | Some p \<Rightarrow> p),
       t_status = Queued, t_createdAt = now, t_startedAt = None, t_completedAt = None,
       t_error = None \<rparr>"

text \<open>\<open>taskQueue.sort((a, b) => b.priority - a.priority)\<close>: stable, highest priority first.\<close>

definition sortQueue :: "task list \<Rightarrow> task list" where
  "sortQueue q = sort_key (\<lambda>t. - t_priority t) q"

definition handleTask :: "env \<Rightarrow> string \<Rightarrow> action list \<Rightarrow> int option \<Rightarrow> gateway \<Rightarrow> reply \<times> gateway" where
  "handleTask ev name actions priority g =
     (let taskItem = newTask (e_now ev) name actions priority;
          g1 = g\<lparr> taskQueue := sortQueue (taskQueue g @ [taskItem]) \<rparr>
      in (TaskQueuedReply taskItem,
          if currentTask g1 = None then processTaskQueue (e_now ev) g1 else g1))"

subsection \<open>Dispatch\<close>

text \<open>
  The messages of \<open>handleMessage\<close> that touch the session, the counters or the tasks,
  with the two continuations of the task lane. \<open>MsgOther\<close> stands for the messages that
  touch none of them (\<open>ping\<close>, \<open>register\<close>, \<open>getState\<close>, starting and stopping the
  autonomous process, an unknown type).
\<close>

datatype message =
    MsgSee
  | MsgClick int int
  | MsgClickOn string find_options
  | MsgType string
  | MsgHotkey string
  | MsgUrlBar string
  | MsgTask string "action list" "int option"
  | MsgAutonomousEvent bool
  | MsgSetPreference string bool
  | MsgOther
  | TaskSettles
  | TimerFires

fun handleMessage :: "env \<Rightarrow> message \<Rightarrow> gateway \<Rightarrow> reply \<times> gateway" where
  "handleMessage ev MsgSee g = handleSee ev g"
| "handleMessage ev (MsgClick cx cy) g = handleClick ev cx cy g"
| "handleMessage ev (MsgClickOn txt opts) g = handleClickOn ev txt opts g"
| "handleMessage ev (MsgType txt) g = handleType ev txt g"
| "handleMessage ev (MsgHotkey keys) g = handleHotkey ev keys g"
| "handleMessage ev (MsgUrlBar url) g = handleUrlBar ev url g"
| "handleMessage ev (MsgTask name actions priority) g = handleTask ev name actions priority g"
| "handleMessage ev (MsgAutonomousEvent clicked) g =
     (NoReply, (if clicked then countClick else (\<lambda>x. x)) (g\<lparr> outbox := outbox g @ [AutonomousEvent clicked] \<rparr>))"
| "handleMessage ev (MsgSetPreference k v) g = (NoReply, setPreference ev k v g)"
| "handleMessage ev MsgOther g = (NoReply, g)"
| "handleMessage ev TaskSettles g = (NoReply, taskSettled ev g)"
| "handleMessage ev TimerFires g = (NoReply, timerFired ev g)"

text \<open>A run of the gateway: the messages and continuations in the order they are handled.\<close>

fun gatewayRun :: "gateway \<Rightarrow> (env \<times> message) list \<Rightarrow> gateway" where
  "gatewayRun g [] = g"
| "gatewayRun g ((ev, m) # rest) = gatewayRun (snd (handleMessage ev m g)) rest"



subsection \<open>Surroundings used in examples\<close>

text \<open>
  Surroundings in which everything succeeds at time \<open>now\<close>, with the words \<open>ws\<close> on the
  screen.
\<close>

definition calm :: "int \<Rightarrow> screen_word list \<Rightarrow> env" where
  "calm now ws = \<lparr> e_now = now, e_seen = Some ws, e_actOk = True, e_writable = True,
                   e_error = ''Command failed'', e_agentOk = True, e_run = (\<lambda>i. Done) \<rparr>"


text \<open>Surroundings for a task whose step number \<open>k\<close> (from 0) throws \<open>msg\<close>.\<close>

definition failingAt :: "int \<Rightarrow> nat \<Rightarrow> string \<Rightarrow> env" where
  "failingAt now k msg = (calm now [])\<lparr> e_run := (\<lambda>i. if i = k then Throws msg else Done) \<rparr>"

section \<open>Properties of the ghost-mode decision engine\<close>

lemma chosen_cong:
  "sameButtonCount s' = sameButtonCount s \<Longrightarrow> lastClickedButton s' = lastClickedButton s
   \<Longrightarrow> chosen cfg s' ws = chosen cfg s ws"
proof -
  assume a: "sameButtonCount s' = sameButtonCount s" "lastClickedButton s' = lastClickedButton s"
  have "bestOf s' = bestOf s"
    by (rule ext) (simp add: bestOf_def candidateIndex_def Let_def a)
  then show ?thesis
    by (simp add: chosen_def)
qed

lemma regionButtons_Nil: "regionButtons [] = None"
  by (simp add: regionButtons_def bottomRightButtons_def dialogButtons_def)

lemma decide_limited:
  "maxActionsPerMinute cfg \<le> actionsThisMinute s \<Longrightarrow> decide cfg s ws = (Wait ''Rate limited'', s)"
  by (simp add: decide_def)

lemma decide_chosen:
  assumes "actionsThisMinute s < maxActionsPerMinute cfg" and "chosen cfg s ws = Some b"
  shows "decide cfg s ws =
           (if pendingCount (sight (buttonKey b) s) < confirmScans cfg
            then (Wait ''Confirming button is real'', sight (buttonKey b) s)
            else (Click (b_x b) (b_y b) (''Confirmed: '' @ quoted (b_match b)),
                  commitClick b (sight (buttonKey b) s)))"
proof -
  from assms(2) obtain region where r: "regionButtons (findButtons cfg ws) = Some region"
    and b: "b = bestOf s region"
    by (auto simp: chosen_def)
  from r have "findButtons cfg ws \<noteq> []"
    using regionButtons_Nil by force
  with assms(1) r b show ?thesis
    by (simp add: decide_def Let_def)
qed

lemma sight_fields [simp]:
  "sameButtonCount (sight k s) = sameButtonCount s"
  "lastClickedButton (sight k s) = lastClickedButton s"
  "actionsThisMinute (sight k s) = actionsThisMinute s"
  "pendingButton (sight k s) = Some k"
  "pendingCount (sight k s) = (if pendingButton s = Some k then pendingCount s + 1 else 1)"
  by (simp_all add: sight_def)

lemma no_click_below_threshold:
  assumes "\<forall>ws \<in> set obs. map_option buttonKey (chosen cfg s ws) = Some k"
      and "(if pendingButton s = Some k then pendingCount s else 0) + length obs < confirmScans cfg"
  shows "\<forall>d \<in> set (fst (decideAll cfg s obs)). \<not> isClick d"
  using assms
proof (induction obs arbitrary: s)
  case Nil
  then show ?case by simp
next
  case (Cons ws rest)
  from Cons.prems(1) obtain b where b: "chosen cfg s ws = Some b" and k: "buttonKey b = k"
    by auto
  show ?case
  proof (cases "maxActionsPerMinute cfg \<le> actionsThisMinute s")
    case True
    then have d: "decide cfg s ws = (Wait ''Rate limited'', s)"
      by (rule decide_limited)
    have "\<forall>d \<in> set (fst (decideAll cfg s rest)). \<not> isClick d"
      using Cons.prems by (intro Cons.IH) (auto split: if_splits)
    with d show ?thesis
      by (simp add: split_beta)
  next
    case False
    let ?s1 = "sight k s"
    have below: "pendingCount ?s1 < confirmScans cfg"
      using Cons.prems(2) by (auto split: if_splits)
    have d: "decide cfg s ws = (Wait ''Confirming button is real'', ?s1)"
      using decide_chosen [of s cfg ws b] False b k below by simp
    have same: "\<forall>ws \<in> set rest. map_option buttonKey (chosen cfg ?s1 ws) = Some k"
      using Cons.prems(1) by (simp add: chosen_cong [of ?s1 s])
    have "\<forall>d \<in> set (fst (decideAll cfg ?s1 rest)). \<not> isClick d"
      using same Cons.prems(2) by (intro Cons.IH) (auto split: if_splits)
    with d show ?thesis
      by (simp add: split_beta)
  qed
qed

text \<open>
  C1 (confirmation debounce). Take poll cycles whose judged candidate has the same key
  \<open>k\<close> every time. As long as the sightings already counted for \<open>k\<close> plus the cycles
  stay below \<open>confirmScans\<close>, no decision is a click. With \<open>confirmScans = 2\<close>, a state
  that is not rate limited and has no sighting of \<open>k\<close> pending, two such cycles give
  exactly the decisions wait, click, and the click is at the position of the candidate of
  the second cycle.
\<close>

theorem confirmation_debounce:
  assumes "\<forall>ws \<in> set obs. map_option buttonKey (chosen cfg s ws) = Some k"
  shows "((if pendingButton s = Some k then pendingCount s else 0) + length obs < confirmScans cfg
            \<longrightarrow> (\<forall>d \<in> set (fst (decideAll cfg s obs)). \<not> isClick d))
       \<and> (\<forall>ws1 ws2 b. obs = [ws1, ws2] \<and> chosen cfg s ws2 = Some b \<and> confirmScans cfg = 2
              \<and> pendingButton s \<noteq> Some k \<and> actionsThisMinute s < maxActionsPerMinute cfg
            \<longrightarrow> fst (decideAll cfg s obs) =
                  [Wait ''Confirming button is real'',
                   Click (b_x b) (b_y b) (''Confirmed: '' @ quoted (b_match b))])"
proof (intro conjI impI allI)
  assume "(if pendingButton s = Some k then pendingCount s else 0) + length obs < confirmScans cfg"
  with assms show "\<forall>d \<in> set (fst (decideAll cfg s obs)). \<not> isClick d"
    by (rule no_click_below_threshold)
next
  fix ws1 ws2 b
  assume a: "obs = [ws1, ws2] \<and> chosen cfg s ws2 = Some b \<and> confirmScans cfg = 2
              \<and> pendingButton s \<noteq> Some k \<and> actionsThisMinute s < maxActionsPerMinute cfg"
  from a assms obtain b1 where b1: "chosen cfg s ws1 = Some b1" and k1: "buttonKey b1 = k"
    by auto
  from a assms have k2: "buttonKey b = k"
    by auto
  let ?s1 = "sight k s"
  have d1: "decide cfg s ws1 = (Wait ''Confirming button is real'', ?s1)"
    using decide_chosen [of s cfg ws1 b1] a b1 k1 by simp
  have c2: "chosen cfg ?s1 ws2 = Some b"
    using a by (simp add: chosen_cong [of ?s1 s])
  have d2: "decide cfg ?s1 ws2 =
              (Click (b_x b) (b_y b) (''Confirmed: '' @ quoted (b_match b)), commitClick b (sight k ?s1))"
    using decide_chosen [of ?s1 cfg ws2 b] a c2 k2 by simp
  from a d1 d2 show "fst (decideAll cfg s obs) =
                  [Wait ''Confirming button is real'',
                   Click (b_x b) (b_y b) (''Confirmed: '' @ quoted (b_match b))]"
    by simp
qed

text \<open>
  The scenario of the specification: \<open>Continue\<close> read at (1300, 700) with confidence 95 on
  two consecutive cycles, from the initial state with the shipped configuration.
\<close>

theorem confirmation_debounce_witness:
  "map_option buttonKey
      (chosen CONFIG initialState [\<lparr> w_text = ''Continue'', w_x = 1300, w_y = 700, w_confidence = 95 \<rparr>])
     = Some (''Continue'', 26, 14)
   \<and> fst (decideAll CONFIG initialState
             [[\<lparr> w_text = ''Continue'', w_x = 1300, w_y = 700, w_confidence = 95 \<rparr>],
              [\<lparr> w_text = ''Continue'', w_x = 1300, w_y = 700, w_confidence = 95 \<rparr>]])
       = [Wait ''Confirming button is real'', Click 1300 700 (''Confirmed: '' @ quoted ''Continue'')]"
proof -
  let ?w = "\<lparr> w_text = ''Continue'', w_x = 1300, w_y = 700, w_confidence = 95 \<rparr>"
  let ?b = "\<lparr> b_text = ''Continue'', b_match = ''Continue'', b_x = 1300, b_y = 700, b_confidence = 95 \<rparr>"
  have c: "chosen CONFIG initialState [?w] = Some ?b"
    by code_simp
  have kb: "buttonKey ?b = (''Continue'', 26, 14)"
    by code_simp
  have h: "\<forall>ws \<in> set [[?w], [?w]].
             map_option buttonKey (chosen CONFIG initialState ws) = Some (''Continue'', 26, 14)"
    using c kb by simp
  have side: "confirmScans CONFIG = 2" "pendingButton initialState \<noteq> Some (''Continue'', 26, 14)"
    "actionsThisMinute initialState < maxActionsPerMinute CONFIG"
    by (simp_all add: CONFIG_def initialState_def)
  from confirmation_debounce [OF h] c side
  have "fst (decideAll CONFIG initialState [[?w], [?w]]) =
          [Wait ''Confirming button is real'', Click (b_x ?b) (b_y ?b) (''Confirmed: '' @ quoted (b_match ?b))]"
    by blast
  with c kb show ?thesis
    by simp
qed
















text \<open>
  C10 (lifecycle of the pending confirmation), evaluated where the code leaves the claim:
  \<open>Continue\<close> is sighted once, the next cycle recognises nothing at all, and the pending
  record is still there with its count of one, so that the next sighting is clicked at
  once.
\<close>

theorem pending_kept_through_absence:
  "fst (decideAll CONFIG initialState
          [[\<lparr> w_text = ''Continue'', w_x = 1300, w_y = 700, w_confidence = 95 \<rparr>],
           [],
           [\<lparr> w_text = ''Continue'', w_x = 1300, w_y = 700, w_confidence = 95 \<rparr>]])
     = [Wait ''Confirming button is real'', Wait ''No buttons found'',
        Click 1300 700 (''Confirmed: '' @ quoted ''Continue'')]
   \<and> pendingButton (snd (decideAll CONFIG initialState
          [[\<lparr> w_text = ''Continue'', w_x = 1300, w_y = 700, w_confidence = 95 \<rparr>], []]))
     = Some (''Continue'', 26, 14)
   \<and> pendingCount (snd (decideAll CONFIG initialState
          [[\<lparr> w_text = ''Continue'', w_x = 1300, w_y = 700, w_confidence = 95 \<rparr>], []]))
     = 1"
  by code_simp

section \<open>Properties of the smart autonomous controller\<close>

lemma guards_ignore_loopsAvoided [simp]:
  "isLoopPosition cfg now (loopsAvoided_update f st) px py = isLoopPosition cfg now st px py"
  "isOnCooldown cfg now (loopsAvoided_update f st) b = isOnCooldown cfg now st b"
  by (simp_all add: isLoopPosition_def isOnCooldown_def)

lemma scan_click_not_loop:
  "isLoopPosition cfg now st px py
   \<Longrightarrow> clickPos (fst (scanButtons cfg now ok tc ws bs st)) \<noteq> Some (px, py)"
  by (induction bs arbitrary: st) (auto split: list.splits)

lemma scan_skips_cooldown:
  "isOnCooldown cfg now st b \<Longrightarrow> clickButton (fst (scanButtons cfg now ok tc ws bs st)) \<noteq> Some b"
  by (induction bs arbitrary: st) (auto split: if_splits list.splits)

lemma scan_learned:
  "learned (snd (scanButtons cfg now ok tc ws bs st))
     = (case fst (scanButtons cfg now ok tc ws bs st) of
          Clicked b px py \<Rightarrow> (learned st)(b \<mapsto> \<lparr> l_x = px, l_y = py, l_lastSeen = tc \<rparr>)
        | Failed b px py \<Rightarrow> learned st
        | Nothing \<Rightarrow> learned st)"
  by (induction bs arbitrary: st)
     (auto simp: recordClick_def Let_def split: if_splits list.splits scan_outcome.splits)

text \<open>
  C3 (loop detection), as the code has it. Let at least \<open>loopThreshold\<close> recorded
  clicks of the last 30 seconds lie within 50 pixels, on both axes, of the first match
  \<open>target\<close> of the button \<open>b\<close>. Then no scan clicks at the position of \<open>target\<close>. When
  \<open>b\<close> is off cooldown, the scan adds exactly one to \<open>loopsAvoided\<close> for it and goes on
  with the remaining buttons (with none remaining it ends without a click). When \<open>b\<close> is on
  cooldown, it is passed over before the loop check and \<open>loopsAvoided\<close> is not touched.
\<close>

theorem loop_detection:
  assumes "agentFind ws b noOptions = target # others"
      and "loopThreshold cfg \<le>
             length (filter (\<lambda>c. \<bar>c_x c - sw_x target\<bar> < 50 \<and> \<bar>c_y c - sw_y target\<bar> < 50
                                  \<and> now - c_time c < 30000) (recentClicks st))"
  shows "clickPos (fst (scanButtons cfg now ok tc ws bs st)) \<noteq> Some (sw_x target, sw_y target)
       \<and> (\<not> isOnCooldown cfg now st b \<longrightarrow>
            scanButtons cfg now ok tc ws (b # bs) st
              = scanButtons cfg now ok tc ws bs (st\<lparr> loopsAvoided := loopsAvoided st + 1 \<rparr>)
          \<and> scanButtons cfg now ok tc ws [b] st = (Nothing, st\<lparr> loopsAvoided := loopsAvoided st + 1 \<rparr>))
       \<and> (isOnCooldown cfg now st b \<longrightarrow>
            scanButtons cfg now ok tc ws (b # bs) st = scanButtons cfg now ok tc ws bs st
          \<and> scanButtons cfg now ok tc ws [b] st = (Nothing, st))"
proof -
  from assms(2) have loop: "isLoopPosition cfg now st (sw_x target) (sw_y target)"
    by (simp add: isLoopPosition_def)
  have "clickPos (fst (scanButtons cfg now ok tc ws bs st)) \<noteq> Some (sw_x target, sw_y target)"
    using loop by (rule scan_click_not_loop)
  with assms(1) loop show ?thesis
    by simp
qed

text \<open>
  The scenario of the specification: three clicks recorded at (1300, 700) within 30
  seconds, then a candidate at (1310, 705) for a button that is off cooldown.
\<close>

theorem loop_detection_witness:
  "(let st = recordClick 7000 ''Keep'' 1300 700
               (recordClick 4000 ''Continue'' 1300 700
                 (recordClick 1000 ''Allow'' 1300 700 smartInitial));
        yes = \<lparr> sw_text = ''Yes'', sw_x = 1310, sw_y = 705 \<rparr>
    in \<not> isOnCooldown SMART_CONFIG 9000 st ''Yes''
       \<and> agentFind [yes] ''Yes'' noOptions = [yes]
       \<and> loopThreshold SMART_CONFIG \<le>
             length (filter (\<lambda>c. \<bar>c_x c - sw_x yes\<bar> < 50 \<and> \<bar>c_y c - sw_y yes\<bar> < 50
                                  \<and> 9000 - c_time c < 30000) (recentClicks st))
       \<and> scanButtons SMART_CONFIG 9000 True 9100 [yes] [''Yes''] st
           = (Nothing, st\<lparr> loopsAvoided := loopsAvoided st + 1 \<rparr>)
       \<and> clickPos (fst (scanButtons SMART_CONFIG 9000 True 9100 [yes] (buttons SMART_CONFIG) st))
           \<noteq> Some (1310, 705)
       \<and> loopsAvoided st = 0)"
proof -
  let ?st = "recordClick 7000 ''Keep'' 1300 700
               (recordClick 4000 ''Continue'' 1300 700
                 (recordClick 1000 ''Allow'' 1300 700 smartInitial))"
  let ?yes = "\<lparr> sw_text = ''Yes'', sw_x = 1310, sw_y = 705 \<rparr>"
  have h1: "\<not> isOnCooldown SMART_CONFIG 9000 ?st ''Yes''"
    by (simp add: isOnCooldown_def recordClick_def smartInitial_def)
  have h2: "agentFind [?yes] ''Yes'' noOptions = ?yes # []"
    by code_simp
  have h3: "loopThreshold SMART_CONFIG \<le>
             length (filter (\<lambda>c. \<bar>c_x c - sw_x ?yes\<bar> < 50 \<and> \<bar>c_y c - sw_y ?yes\<bar> < 50
                                  \<and> 9000 - c_time c < 30000) (recentClicks ?st))"
    by (simp add: SMART_CONFIG_def recordClick_def smartInitial_def)
  have h4: "loopsAvoided ?st = 0"
    by (simp add: recordClick_def smartInitial_def)
  have one: "scanButtons SMART_CONFIG 9000 True 9100 [?yes] [''Yes''] ?st
           = (Nothing, ?st\<lparr> loopsAvoided := loopsAvoided ?st + 1 \<rparr>)"
    using loop_detection [OF h2 h3, where ok = True and tc = 9100 and bs = "[]"] h1 by blast
  have none: "clickPos (fst (scanButtons SMART_CONFIG 9000 True 9100 [?yes] (buttons SMART_CONFIG) ?st))
           \<noteq> Some (1310, 705)"
    using loop_detection [OF h2 h3, where ok = True and tc = 9100 and bs = "buttons SMART_CONFIG"]
    by simp
  from h1 h2 h3 h4 one none show ?thesis
    by (simp add: Let_def)
qed

text \<open>
  The claim as it stands fails on the counter when the button of the candidate is on
  cooldown: three clicks are recorded at (1300, 700), the last one on \<open>Keep\<close> two seconds
  ago; \<open>Keep\<close> at (1310, 705) is a loop position, the scan does not click it, and
  \<open>loopsAvoided\<close> stays as it was.
\<close>

theorem cooldown_hides_loop:
  "(let st = recordClick 7000 ''Keep'' 1300 700
               (recordClick 4000 ''Continue'' 1300 700
                 (recordClick 1000 ''Allow'' 1300 700 smartInitial));
        keep = \<lparr> sw_text = ''Keep'', sw_x = 1310, sw_y = 705 \<rparr>
    in isLoopPosition SMART_CONFIG 9000 st 1310 705
       \<and> agentFind [keep] ''Keep'' noOptions = [keep]
       \<and> fst (smartScan SMART_CONFIG 9000 True 9100 (Some [keep]) st) = Nothing
       \<and> loopsAvoided st = 0
       \<and> loopsAvoided (snd (smartScan SMART_CONFIG 9000 True 9100 (Some [keep]) st)) = 0)"
  by code_simp

text \<open>
  C4 (cooldown per pattern). After \<open>recordClick\<close> on \<open>b\<close> at a time \<open>tc\<close> (other than the
  falsy time stamp 0): while less than \<open>buttonCooldown\<close> has passed, no scan clicks \<open>b\<close>,
  whatever words and positions it sees; once \<open>buttonCooldown\<close> has passed, \<open>b\<close> is off
  cooldown, and a scan that reaches it with a match outside a loop position clicks that
  match.
\<close>

theorem button_cooldown:
  assumes "tc \<noteq> 0"
  shows "(now - tc < buttonCooldown cfg \<longrightarrow>
            isOnCooldown cfg now (recordClick tc b px py st) b
          \<and> clickButton (fst (scanButtons cfg now ok t' ws bs (recordClick tc b px py st))) \<noteq> Some b)
       \<and> (buttonCooldown cfg \<le> now - tc \<longrightarrow> \<not> isOnCooldown cfg now (recordClick tc b px py st) b)
       \<and> (buttonCooldown cfg \<le> now - tc \<and> agentFind ws b noOptions = target # others
            \<and> \<not> isLoopPosition cfg now (recordClick tc b px py st) (sw_x target) (sw_y target) \<longrightarrow>
            scanButtons cfg now True t' ws (b # bs) (recordClick tc b px py st)
              = (Clicked b (sw_x target) (sw_y target),
                 recordClick t' b (sw_x target) (sw_y target) (recordClick tc b px py st)))"
proof -
  have cd: "isOnCooldown cfg now (recordClick tc b px py st) b \<longleftrightarrow> now - tc < buttonCooldown cfg"
    using assms by (simp add: isOnCooldown_def recordClick_def Let_def)
  show ?thesis
    using cd scan_skips_cooldown [of cfg now "recordClick tc b px py st" b ok t' ws bs]
    by auto
qed

text \<open>
  The scenario of the specification, with the click on \<open>Allow\<close> recorded at time 1000:
  five seconds later a drifted candidate is not clicked, eleven seconds later it is.
\<close>

theorem button_cooldown_witness:
  "(let st = recordClick 1000 ''Allow'' 600 400 smartInitial;
        allow = \<lparr> sw_text = ''Allow'', sw_x = 640, sw_y = 430 \<rparr>
    in (1000::int) \<noteq> 0
       \<and> 6000 - 1000 < buttonCooldown SMART_CONFIG
       \<and> clickButton (fst (scanButtons SMART_CONFIG 6000 True 6100 [allow] (buttons SMART_CONFIG) st))
            \<noteq> Some ''Allow''
       \<and> buttonCooldown SMART_CONFIG \<le> 12000 - 1000
       \<and> agentFind [allow] ''Allow'' noOptions = [allow]
       \<and> \<not> isLoopPosition SMART_CONFIG 12000 st (sw_x allow) (sw_y allow)
       \<and> fst (scanButtons SMART_CONFIG 12000 True 12100 [allow] (buttons SMART_CONFIG) st)
            = Clicked ''Allow'' 640 430)"
proof -
  let ?st = "recordClick 1000 ''Allow'' 600 400 smartInitial"
  let ?allow = "\<lparr> sw_text = ''Allow'', sw_x = 640, sw_y = 430 \<rparr>"
  have h0: "(1000::int) \<noteq> 0"
    by simp
  have h1: "6000 - 1000 < buttonCooldown SMART_CONFIG" "buttonCooldown SMART_CONFIG \<le> 12000 - 1000"
    by (simp_all add: SMART_CONFIG_def)
  have h2: "agentFind [?allow] ''Allow'' noOptions = ?allow # []"
    by code_simp
  have h3: "\<not> isLoopPosition SMART_CONFIG 12000 ?st (sw_x ?allow) (sw_y ?allow)"
    by (simp add: isLoopPosition_def SMART_CONFIG_def recordClick_def smartInitial_def)
  have bs: "buttons SMART_CONFIG = ''Allow'' # tl (buttons SMART_CONFIG)"
    by (simp add: SMART_CONFIG_def)
  have late: "fst (scanButtons SMART_CONFIG 12000 True 12100 [?allow] (buttons SMART_CONFIG) ?st)
                = Clicked ''Allow'' 640 430"
    using button_cooldown [OF h0, where now = 12000 and cfg = SMART_CONFIG and b = "''Allow''"
        and px = 600 and py = 400 and st = smartInitial and t' = 12100 and ws = "[?allow]"
        and bs = "tl (buttons SMART_CONFIG)" and target = ?allow and others = "[]"] h1 h2 h3 bs
    by simp
  have early: "clickButton (fst (scanButtons SMART_CONFIG 6000 True 6100 [?allow] (buttons SMART_CONFIG) ?st))
                 \<noteq> Some ''Allow''"
    using button_cooldown [OF h0, where now = 6000 and cfg = SMART_CONFIG and b = "''Allow''"
        and px = 600 and py = 400 and st = smartInitial and ok = True and t' = 6100
        and ws = "[?allow]" and bs = "buttons SMART_CONFIG"] h1
    by simp
  from h0 h1 h2 h3 early late show ?thesis
    by (simp add: Let_def)
qed

section \<open>Properties of the gateway\<close>

lemma learnedPositions_counters [simp]:
  "session (countClick g) = session g"
  "session (countAction g) = session g"
  "session (countType g) = session g"
  "session (saveSession w g) = session g"
  by (simp_all add: countClick_def countAction_def countType_def saveSession_def)

lemma learnedPositions_learn [simp]:
  "learnedPositions (session (learn txt pos g)) = (learnedPositions (session g))(txt \<mapsto> pos)"
  by (simp add: learn_def)

text \<open>
  C5 (learned position: round trip and fallback). A click-by-text on \<open>P\<close> that finds a
  live match and goes through stores the position of that match under \<open>P\<close> and, when the
  file can be written, on disk. On a later click-by-text on \<open>P\<close> from that state, a
  screen without a match for \<open>P\<close> leads to a click at the stored coordinates, and a
  screen with a match leads to a click at the live match, not at the stored one.
\<close>

theorem learned_position_fallback:
  assumes "e_seen ev1 = Some ws1" and "agentFind ws1 P o1 = target # others" and "e_actOk ev1"
      and "e_seen ev2 = Some ws2" and "e_actOk ev2"
  shows "learnedPositions (session (snd (handleClickOn ev1 P o1 g))) P
           = Some \<lparr> p_x = sw_x target, p_y = sw_y target, p_seenAt = e_now ev1 \<rparr>
       \<and> (e_writable ev1 \<longrightarrow>
            sessionFile (snd (handleClickOn ev1 P o1 g)) = Some (session (snd (handleClickOn ev1 P o1 g))))
       \<and> (agentFind ws2 P o2 = [] \<longrightarrow>
            handleClickOn ev2 P o2 (snd (handleClickOn ev1 P o1 g))
              = (ClickOnResult P True (sw_x target) (sw_y target),
                 countClick (snd (handleClickOn ev1 P o1 g))))
       \<and> (\<forall>live rest. agentFind ws2 P o2 = live # rest \<longrightarrow>
            fst (handleClickOn ev2 P o2 (snd (handleClickOn ev1 P o1 g)))
              = ClickOnResult P False (sw_x live) (sw_y live))"
proof -
  let ?g1 = "snd (handleClickOn ev1 P o1 g)"
  have g1: "?g1 = countClick (saveSession (e_writable ev1)
                    (learn P \<lparr> p_x = sw_x target, p_y = sw_y target, p_seenAt = e_now ev1 \<rparr> g))"
    using assms(1-3) by (simp add: handleClickOn_def)
  have stored: "learnedPositions (session ?g1) P
                  = Some \<lparr> p_x = sw_x target, p_y = sw_y target, p_seenAt = e_now ev1 \<rparr>"
    by (simp add: g1)
  have disk: "e_writable ev1 \<longrightarrow> sessionFile ?g1 = Some (session ?g1)"
    by (simp add: g1 countClick_def saveSession_def)
  have fallback: "agentFind ws2 P o2 = [] \<longrightarrow>
            handleClickOn ev2 P o2 ?g1
              = (ClickOnResult P True (sw_x target) (sw_y target), countClick ?g1)"
    using assms(4,5) stored by (simp add: handleClickOn_def)
  have live: "\<forall>live rest. agentFind ws2 P o2 = live # rest \<longrightarrow>
            fst (handleClickOn ev2 P o2 ?g1) = ClickOnResult P False (sw_x live) (sw_y live)"
    using assms(4,5) by (simp add: handleClickOn_def)
  from stored disk fallback live show ?thesis
    by blast
qed

text \<open>
  \<open>Allow\<close> is clicked by text at (600, 400); later the screen is empty and the click goes
  to (600, 400) again.
\<close>

theorem learned_position_fallback_witness:
  "(let allow = \<lparr> sw_text = ''Allow'', sw_x = 600, sw_y = 400 \<rparr>;
        g1 = snd (handleClickOn (calm 10 [allow]) ''Allow'' noOptions (gatewayStart None 0))
    in e_seen (calm 10 [allow]) = Some [allow]
       \<and> agentFind [allow] ''Allow'' noOptions = [allow]
       \<and> e_actOk (calm 10 [allow])
       \<and> e_seen (calm 20 []) = Some []
       \<and> e_actOk (calm 20 [])
       \<and> agentFind [] ''Allow'' noOptions = []
       \<and> learnedPositions (session g1) ''Allow'' = Some \<lparr> p_x = 600, p_y = 400, p_seenAt = 10 \<rparr>
       \<and> fst (handleClickOn (calm 20 []) ''Allow'' noOptions g1) = ClickOnResult ''Allow'' True 600 400)"
proof -
  let ?allow = "\<lparr> sw_text = ''Allow'', sw_x = 600, sw_y = 400 \<rparr>"
  have h1: "e_seen (calm 10 [?allow]) = Some [?allow]" and h3: "e_actOk (calm 10 [?allow])"
    and h4: "e_seen (calm 20 []) = Some []" and h5: "e_actOk (calm 20 [])"
    by (simp_all add: calm_def)
  have h2: "agentFind [?allow] ''Allow'' noOptions = ?allow # []"
    by code_simp
  have h6: "agentFind [] ''Allow'' noOptions = []"
    by code_simp
  from learned_position_fallback [OF h1 h2 h3 h4 h5, where g = "gatewayStart None 0" and ?o2.0 = noOptions]
    h1 h2 h3 h4 h5 h6
  show ?thesis
    by (simp add: Let_def calm_def)
qed

lemma rememberButtons_learned:
  "learnedPositions (session (rememberButtons now ws ps g)) p
     = (if p \<in> set ps
        then (case agentFind ws p noOptions of
                [] \<Rightarrow> learnedPositions (session g) p
              | m # others \<Rightarrow> Some \<lparr> p_x = sw_x m, p_y = sw_y m, p_seenAt = now \<rparr>)
        else learnedPositions (session g) p)"
  by (induction ps arbitrary: g) (auto split: list.splits)

lemma session_task_lane [simp]:
  "session (processTaskQueue now g) = session g"
  "session (taskSettled ev g) = session g"
  "session (timerFired ev g) = session g"
  "session (snd (handleTask ev name actions priority g)) = session g"
  by (simp_all add: processTaskQueue_def taskSettled_def timerFired_def handleTask_def Let_def
        split_beta split: list.splits option.splits)

text \<open>
  C8 (session file round trip), as the code has it. The session written at shutdown
  and loaded at the next start is the same record, so the learned positions (and id,
  start time and preferences) come back unchanged. The record has no statistics: the
  counters are not in the file and a start sets them to zero, whatever they were. Without
  a file the default session is built.
\<close>

theorem session_round_trip:
  "session (gatewayStart (shutdown True g) now) = session g
   \<and> learnedPositions (session (gatewayStart (shutdown True g) now)) = learnedPositions (session g)
   \<and> stats (gatewayStart file now)
       = \<lparr> totalActions = 0, totalClicks_gw = 0, totalTypes = 0, uptime = now \<rparr>
   \<and> session (gatewayStart None now) = defaultSession now
   \<and> learnedPositions (defaultSession now) = Map.empty"
  by (simp add: gatewayStart_def shutdown_def saveSession_def loadSession_def defaultSession_def)

text \<open>
  A click is counted, the gateway is shut down and started again: the learned position
  is back, the click counter is not.
\<close>

theorem session_round_trip_witness:
  "(let allow = \<lparr> sw_text = ''Allow'', sw_x = 600, sw_y = 400 \<rparr>;
        g = snd (handleClickOn (calm 10 [allow]) ''Allow'' noOptions (gatewayStart None 0));
        g' = gatewayStart (shutdown True g) 99
    in learnedPositions (session g') ''Allow'' = Some \<lparr> p_x = 600, p_y = 400, p_seenAt = 10 \<rparr>
       \<and> session g' = session g
       \<and> totalClicks_gw (stats g') = 0)"
proof -
  let ?allow = "\<lparr> sw_text = ''Allow'', sw_x = 600, sw_y = 400 \<rparr>"
  let ?g = "snd (handleClickOn (calm 10 [?allow]) ''Allow'' noOptions (gatewayStart None 0))"
  have found: "agentFind [?allow] ''Allow'' noOptions = [?allow]"
    by code_simp
  have lp: "learnedPositions (session ?g) ''Allow'' = Some \<lparr> p_x = 600, p_y = 400, p_seenAt = 10 \<rparr>"
    using found by (simp add: handleClickOn_def calm_def)
  from session_round_trip [of ?g 99 "shutdown True ?g"] lp show ?thesis
    by (simp add: Let_def)
qed

text \<open>
  The claim as it stands fails on the statistics: one click before the shutdown, none
  after the restart.
\<close>

theorem stats_lost_on_restart:
  "totalClicks_gw (stats (snd (handleClick (calm 10 []) 600 400 (gatewayStart None 0)))) = 1
   \<and> totalClicks_gw (stats (gatewayStart
         (shutdown True (snd (handleClick (calm 10 []) 600 400 (gatewayStart None 0)))) 99)) = 0"
  by (simp add: handleClick_def calm_def countClick_def gatewayStart_def)

text \<open>
  C9 (what writes a learned position), as the code has it. In the gateway the mapping
  is written by a click-by-text that finds a live match and goes through, under the text
  clicked, and by an observation, under each of the seven button patterns it finds; every
  other message, a click-by-text that fails, finds nothing or uses the stored position,
  and an observation that throws leave it as it is. In the smart controller \<open>learned\<close>
  changes only in a scan that clicks successfully, under the button clicked.
\<close>

theorem learned_written_by:
  "(m \<noteq> MsgSee \<and> (\<forall>label opts. m \<noteq> MsgClickOn label opts) \<longrightarrow>
      learnedPositions (session (snd (handleMessage ev m g))) = learnedPositions (session g))
   \<and> ((\<forall>cx cy. fst (handleClickOn ev label opts g) \<noteq> ClickOnResult label False cx cy) \<longrightarrow>
      learnedPositions (session (snd (handleClickOn ev label opts g))) = learnedPositions (session g))
   \<and> (fst (handleClickOn ev label opts g) = ClickOnResult label False cx cy \<longrightarrow>
      learnedPositions (session (snd (handleClickOn ev label opts g)))
        = (learnedPositions (session g))(label \<mapsto> \<lparr> p_x = cx, p_y = cy, p_seenAt = e_now ev \<rparr>))
   \<and> learnedPositions (session (snd (handleSee ev g))) p
        = (case e_seen ev of
             None \<Rightarrow> learnedPositions (session g) p
           | Some ws \<Rightarrow>
               if p \<in> set seePatterns
               then (case agentFind ws p noOptions of
                       [] \<Rightarrow> learnedPositions (session g) p
                     | w # others \<Rightarrow> Some \<lparr> p_x = sw_x w, p_y = sw_y w, p_seenAt = e_now ev \<rparr>)
               else learnedPositions (session g) p)
   \<and> learned (snd (smartScan cfg now ok tc seen st))
        = (case fst (smartScan cfg now ok tc seen st) of
             Clicked b px py \<Rightarrow> (learned st)(b \<mapsto> \<lparr> l_x = px, l_y = py, l_lastSeen = tc \<rparr>)
           | Failed b px py \<Rightarrow> learned st
           | Nothing \<Rightarrow> learned st)"
proof -
  have other: "m \<noteq> MsgSee \<and> (\<forall>label opts. m \<noteq> MsgClickOn label opts) \<longrightarrow>
      learnedPositions (session (snd (handleMessage ev m g))) = learnedPositions (session g)"
    by (cases m)
       (simp_all add: handleClick_def handleType_def handleHotkey_def handleUrlBar_def
          setPreference_def)
  have quiet: "(\<forall>cx cy. fst (handleClickOn ev label opts g) \<noteq> ClickOnResult label False cx cy) \<longrightarrow>
      learnedPositions (session (snd (handleClickOn ev label opts g))) = learnedPositions (session g)"
    by (simp add: handleClickOn_def split: option.splits list.splits)
  have live: "fst (handleClickOn ev label opts g) = ClickOnResult label False cx cy \<longrightarrow>
      learnedPositions (session (snd (handleClickOn ev label opts g)))
        = (learnedPositions (session g))(label \<mapsto> \<lparr> p_x = cx, p_y = cy, p_seenAt = e_now ev \<rparr>)"
    by (simp add: handleClickOn_def split: option.splits list.splits)
  have see: "learnedPositions (session (snd (handleSee ev g))) p
        = (case e_seen ev of
             None \<Rightarrow> learnedPositions (session g) p
           | Some ws \<Rightarrow>
               if p \<in> set seePatterns
               then (case agentFind ws p noOptions of
                       [] \<Rightarrow> learnedPositions (session g) p
                     | w # others \<Rightarrow> Some \<lparr> p_x = sw_x w, p_y = sw_y w, p_seenAt = e_now ev \<rparr>)
               else learnedPositions (session g) p)"
    by (simp add: handleSee_def rememberButtons_learned split: option.splits)
  have smart: "learned (snd (smartScan cfg now ok tc seen st))
        = (case fst (smartScan cfg now ok tc seen st) of
             Clicked b px py \<Rightarrow> (learned st)(b \<mapsto> \<lparr> l_x = px, l_y = py, l_lastSeen = tc \<rparr>)
           | Failed b px py \<Rightarrow> learned st
           | Nothing \<Rightarrow> learned st)"
    by (simp add: smartScan_def scan_learned split: option.splits)
  from other quiet live see smart show ?thesis
    by blast
qed

text \<open>
  A click by coordinates and a click-by-text that throws leave the empty mapping empty; a
  click-by-text that goes through writes its entry.
\<close>

theorem learned_written_by_witness:
  "(let allow = \<lparr> sw_text = ''Allow'', sw_x = 600, sw_y = 400 \<rparr>;
        g = gatewayStart None 0;
        failing = (calm 10 [allow])\<lparr> e_actOk := False \<rparr>
    in MsgClick 600 400 \<noteq> MsgSee
       \<and> learnedPositions (session (snd (handleMessage (calm 10 [allow]) (MsgClick 600 400) g))) ''Allow'' = None
       \<and> fst (handleClickOn failing ''Allow'' noOptions g) = ErrorReply ''Command failed''
       \<and> learnedPositions (session (snd (handleClickOn failing ''Allow'' noOptions g))) ''Allow'' = None
       \<and> fst (handleClickOn (calm 10 [allow]) ''Allow'' noOptions g) = ClickOnResult ''Allow'' False 600 400
       \<and> learnedPositions (session (snd (handleClickOn (calm 10 [allow]) ''Allow'' noOptions g))) ''Allow''
           = Some \<lparr> p_x = 600, p_y = 400, p_seenAt = 10 \<rparr>)"
proof -
  let ?allow = "\<lparr> sw_text = ''Allow'', sw_x = 600, sw_y = 400 \<rparr>"
  let ?g = "gatewayStart None 0"
  let ?failing = "(calm 10 [?allow])\<lparr> e_actOk := False \<rparr>"
  have empty: "learnedPositions (session ?g) = Map.empty"
    by (simp add: gatewayStart_def loadSession_def defaultSession_def)
  have found: "agentFind [?allow] ''Allow'' noOptions = [?allow]"
    by code_simp
  have r1: "fst (handleClickOn ?failing ''Allow'' noOptions ?g) = ErrorReply ''Command failed''"
    using found by (simp add: handleClickOn_def calm_def)
  have r2: "fst (handleClickOn (calm 10 [?allow]) ''Allow'' noOptions ?g) = ClickOnResult ''Allow'' False 600 400"
    using found by (simp add: handleClickOn_def calm_def)
  have now: "e_now (calm 10 [?allow]) = 10"
    by (simp add: calm_def)
  have c1: "learnedPositions (session (snd (handleMessage (calm 10 [?allow]) (MsgClick 600 400) ?g))) ''Allow'' = None"
    using learned_written_by [where m = "MsgClick 600 400" and ev = "calm 10 [?allow]" and g = ?g] empty
    by simp
  have c2: "learnedPositions (session (snd (handleClickOn ?failing ''Allow'' noOptions ?g))) ''Allow'' = None"
    using learned_written_by [where ev = ?failing and g = ?g and label = "''Allow''" and opts = noOptions]
      r1 empty
    by simp
  have c3: "learnedPositions (session (snd (handleClickOn (calm 10 [?allow]) ''Allow'' noOptions ?g))) ''Allow''
           = Some \<lparr> p_x = 600, p_y = 400, p_seenAt = 10 \<rparr>"
    using learned_written_by [where ev = "calm 10 [?allow]" and g = ?g and label = "''Allow''"
        and opts = noOptions and cx = 600 and cy = 400] r2 now
    by simp
  from c1 c2 c3 r1 r2 show ?thesis
    by (simp add: Let_def)
qed

text \<open>
  The claim as it stands fails on an observation: \<open>Continue\<close> is merely seen, nothing is
  clicked, and the mapping has an entry for it afterwards.
\<close>

theorem observation_writes_learned:
  "learnedPositions (session (gatewayStart None 0)) ''Continue'' = None
   \<and> learnedPositions (session (snd (handleMessage
         (calm 10 [\<lparr> sw_text = ''Continue'', sw_x = 1300, sw_y = 700 \<rparr>]) MsgSee (gatewayStart None 0))))
       ''Continue''
     = Some \<lparr> p_x = 1300, p_y = 700, p_seenAt = 10 \<rparr>
   \<and> stats (snd (handleMessage
         (calm 10 [\<lparr> sw_text = ''Continue'', sw_x = 1300, sw_y = 700 \<rparr>]) MsgSee (gatewayStart None 0)))
     = stats (gatewayStart None 0)"
  by code_simp

lemma execute_throws:
  "k < length acts \<Longrightarrow> \<forall>j<k. perform run (i + j) (acts ! j) = Done
   \<Longrightarrow> perform run (i + k) (acts ! k) = Throws msg
   \<Longrightarrow> execute run i acts = (take (Suc k) acts, Some msg)"
proof (induction acts arbitrary: i k)
  case Nil
  then show ?case by simp
next
  case (Cons a rest)
  show ?case
  proof (cases k)
    case 0
    with Cons.prems show ?thesis by simp
  next
    case (Suc k')
    have first: "perform run i a = Done"
      using Cons.prems(2) Suc by force
    have "\<forall>j<k'. perform run (Suc i + j) (rest ! j) = Done"
    proof (intro allI impI)
      fix j assume "j < k'"
      then have "perform run (i + Suc j) ((a # rest) ! Suc j) = Done"
        using Cons.prems(2) Suc by blast
      then show "perform run (Suc i + j) (rest ! j) = Done" by simp
    qed
    moreover have "perform run (Suc i + k') (rest ! k') = Throws msg"
      using Cons.prems(3) Suc by simp
    moreover have "k' < length rest"
      using Cons.prems(1) Suc by simp
    ultimately have "execute run (Suc i) rest = (take (Suc k') rest, Some msg)"
      by (rule Cons.IH [rotated 1])
    with first Suc show ?thesis by simp
  qed
qed

text \<open>
  C7 (a step of a task throws). The running task \<open>t\<close> has its step number \<open>k\<close> (counted
  from 0) throw an error with the non-empty message \<open>msg\<close>, the steps before it having
  gone through. Then the continuation of \<open>processTaskQueue\<close> ends normally: the task is
  marked failed with \<open>msg\<close> as its error, the steps started are exactly the first
  \<open>k + 1\<close>, the queue is untouched, and when the timer fires the head of the queue is
  started (or, with an empty queue, the gateway is idle).
\<close>

theorem task_step_failure:
  assumes "currentTask g = Some t" and "t_status t = Running" and "e_agentOk ev"
      and "k < length (t_actions t)"
      and "\<forall>j<k. perform (e_run ev) j (t_actions t ! j) = Done"
      and "perform (e_run ev) k (t_actions t ! k) = Throws msg"
      and "msg \<noteq> []"
  shows "handleMessage ev TaskSettles g
           = (NoReply,
              g\<lparr> currentTask := Some (t\<lparr> t_status := Failed_status, t_error := Some msg \<rparr>),
                  invoked := invoked g @ take (Suc k) (t_actions t),
                  outbox := outbox g @ [TaskCompleted (t\<lparr> t_status := Failed_status, t_error := Some msg \<rparr>)] \<rparr>)
       \<and> (\<exists>t' m. currentTask (taskSettled ev g) = Some t' \<and> t_status t' = Failed_status
                  \<and> t_error t' = Some m \<and> m \<noteq> [])
       \<and> invoked (taskSettled ev g) = invoked g @ take (Suc k) (t_actions t)
       \<and> taskQueue (taskSettled ev g) = taskQueue g
       \<and> (\<forall>n q. taskQueue g = n # q \<longrightarrow>
             currentTask (timerFired ev' (taskSettled ev g))
               = Some (n\<lparr> t_status := Running, t_startedAt := Some (e_now ev') \<rparr>)
           \<and> taskQueue (timerFired ev' (taskSettled ev g)) = q)
       \<and> (taskQueue g = [] \<longrightarrow> currentTask (timerFired ev' (taskSettled ev g)) = None)"
proof -
  let ?failed = "t\<lparr> t_status := Failed_status, t_error := Some msg \<rparr>"
  have ex: "execute (e_run ev) 0 (t_actions t) = (take (Suc k) (t_actions t), Some msg)"
    using execute_throws [of k "t_actions t" "e_run ev" 0 msg] assms(4-6) by simp
  have settled: "taskSettled ev g
           = g\<lparr> currentTask := Some ?failed,
                  invoked := invoked g @ take (Suc k) (t_actions t),
                  outbox := outbox g @ [TaskCompleted ?failed] \<rparr>"
    using assms(1-3) ex by (simp add: taskSettled_def Let_def)
  have next_task: "\<forall>n q. taskQueue g = n # q \<longrightarrow>
             currentTask (timerFired ev' (taskSettled ev g))
               = Some (n\<lparr> t_status := Running, t_startedAt := Some (e_now ev') \<rparr>)
           \<and> taskQueue (timerFired ev' (taskSettled ev g)) = q"
    by (simp add: settled timerFired_def processTaskQueue_def Let_def)
  have idle: "taskQueue g = [] \<longrightarrow> currentTask (timerFired ev' (taskSettled ev g)) = None"
    by (simp add: settled timerFired_def processTaskQueue_def)
  have failed: "\<exists>t' m. currentTask (taskSettled ev g) = Some t' \<and> t_status t' = Failed_status
                  \<and> t_error t' = Some m \<and> m \<noteq> []"
    using assms(7) by (simp add: settled)
  from settled next_task idle failed show ?thesis
    by simp
qed

text \<open>
  The scenario of the specification: the second of three steps throws; a second task is
  waiting in the queue.
\<close>

theorem task_step_failure_witness:
  "(let steps = [AClick 1 2, AType ''x'', AClick 3 4];
        g = gatewayRun (gatewayStart None 0)
              [(calm 1 [], MsgTask ''first'' steps None), (calm 2 [], MsgTask ''second'' [] None)];
        ev = failingAt 3 1 ''Command failed'';
        g' = snd (handleMessage ev TaskSettles g)
    in map_option t_name (currentTask g) = Some ''first''
       \<and> map_option t_status (currentTask g) = Some Running
       \<and> perform (e_run ev) 1 (steps ! 1) = Throws ''Command failed''
       \<and> map_option t_status (currentTask g') = Some Failed_status
       \<and> map_option t_error (currentTask g') = Some (Some ''Command failed'')
       \<and> invoked g' = [AClick 1 2, AType ''x'']
       \<and> map_option t_name (currentTask (timerFired (calm 4 []) g')) = Some ''second''
       \<and> map_option t_status (currentTask (timerFired (calm 4 []) g')) = Some Running)"
proof -
  define steps where "steps = [AClick 1 2, AType ''x'', AClick 3 4]"
  define g where "g = gatewayRun (gatewayStart None 0)
              [(calm 1 [], MsgTask ''first'' steps None), (calm 2 [], MsgTask ''second'' [] None)]"
  define ev where "ev = failingAt 3 1 ''Command failed''"
  define t where "t = (newTask 1 ''first'' steps None)\<lparr> t_status := Running, t_startedAt := Some 1 \<rparr>"
  define n where "n = newTask 2 ''second'' [] None"
  have cur: "currentTask g = Some t" and q: "taskQueue g = n # []" and inv: "invoked g = []"
    by (simp_all add: g_def t_def n_def gatewayStart_def handleTask_def processTaskQueue_def
          sortQueue_def calm_def Let_def)
  have h2: "t_status t = Running" and h3: "e_agentOk ev" and h4: "1 < length (t_actions t)"
    and h5: "\<forall>j<1. perform (e_run ev) j (t_actions t ! j) = Done"
    and h6: "perform (e_run ev) 1 (t_actions t ! 1) = Throws ''Command failed''"
    and h7: "''Command failed'' \<noteq> []"
    by (simp_all add: t_def ev_def steps_def newTask_def failingAt_def calm_def)
  have h6': "perform (e_run ev) 1 (steps ! 1) = Throws ''Command failed''"
    using h6 by (simp add: t_def newTask_def)
  have settled: "snd (handleMessage ev TaskSettles g)
           = g\<lparr> currentTask := Some (t\<lparr> t_status := Failed_status, t_error := Some ''Command failed'' \<rparr>),
                  invoked := invoked g @ take (Suc 1) (t_actions t),
                  outbox := outbox g @ [TaskCompleted (t\<lparr> t_status := Failed_status,
                                                        t_error := Some ''Command failed'' \<rparr>)] \<rparr>"
    using task_step_failure [OF cur h2 h3 h4 h5 h6 h7] by simp
  have "currentTask (timerFired (calm 4 []) (taskSettled ev g))
                   = Some (n\<lparr> t_status := Running, t_startedAt := Some (e_now (calm 4 [])) \<rparr>)"
    using task_step_failure [OF cur h2 h3 h4 h5 h6 h7, where ev' = "calm 4 []"] q by blast
  then have started: "currentTask (timerFired (calm 4 []) (snd (handleMessage ev TaskSettles g)))
                   = Some (n\<lparr> t_status := Running, t_startedAt := Some (e_now (calm 4 [])) \<rparr>)"
    by simp
  have main: "map_option t_name (currentTask g) = Some ''first''
       \<and> map_option t_status (currentTask g) = Some Running
       \<and> perform (e_run ev) 1 (steps ! 1) = Throws ''Command failed''
       \<and> map_option t_status (currentTask (snd (handleMessage ev TaskSettles g))) = Some Failed_status
       \<and> map_option t_error (currentTask (snd (handleMessage ev TaskSettles g))) = Some (Some ''Command failed'')
       \<and> invoked (snd (handleMessage ev TaskSettles g)) = [AClick 1 2, AType ''x'']
       \<and> map_option t_name (currentTask (timerFired (calm 4 []) (snd (handleMessage ev TaskSettles g))))
            = Some ''second''
       \<and> map_option t_status (currentTask (timerFired (calm 4 []) (snd (handleMessage ev TaskSettles g))))
            = Some Running"
    unfolding settled [symmetric] started
    using cur inv h6' settled
    by (simp add: t_def n_def newTask_def steps_def)
  show ?thesis
    unfolding Let_def by (rule main [unfolded g_def ev_def steps_def])
qed


lemma rememberButtons_task_lane [simp]:
  "taskQueue (rememberButtons now ws ps g) = taskQueue g"
  "currentTask (rememberButtons now ws ps g) = currentTask g"
  by (induction ps arbitrary: g) (simp_all add: learn_def split: list.splits)









end
